theory Spec2Isabelle
  imports Main "HOL-Library.Sublist"
begin

section \<open>Values of the Python program\<close>

text \<open>
  A Python \<open>str\<close> is a sequence of Unicode code points; \<open>len\<close>, slicing and
  \<open>strip\<close> all count code points. The OCR language of the program is Japanese, so the
  page texts are not ASCII: a string of the model is a list of code points, and a
  literal of the source is the list of the code points of its characters.
\<close>

type_synonym str = "nat list"

definition lit :: "string \<Rightarrow> str" where
  "lit s = map of_char s"

definition nl :: str where
  "nl = [10]"

text \<open>\<open>str(n)\<close> and \<open>{n}\<close> in an f-string, for a non-negative integer: its decimal digits.\<close>

fun str_of_nat :: "nat \<Rightarrow> str" where
  "str_of_nat n = (if n < 10 then [48 + n] else str_of_nat (n div 10) @ [48 + n mod 10])"

declare str_of_nat.simps [simp del]

text \<open>
  An instance of Python's class \<open>Exception\<close>: the name of its type, the value of
  \<open>str(e)\<close>, and \<open>__context__\<close>, the exception that was being handled when it was
  raised (\<open>raise\<close> inside an \<open>except\<close> block sets it). Both handlers of the program
  are \<open>except Exception\<close>: what is not an instance of \<open>Exception\<close> (a
  \<open>KeyboardInterrupt\<close>, a \<open>SystemExit\<close>) is not an error of the libraries and is not
  part of the model.
\<close>

datatype exn = Exn (exn_type: string) (exn_str: str) (exn_context: "exn option")

section \<open>The libraries: pdfplumber and pytesseract\<close>

text \<open>
  What the program reads from a page of pdfplumber: \<open>page.extract_text()\<close> (a string or
  \<open>None\<close>), \<open>page.images\<close>, \<open>page.chars\<close> and \<open>page.to_image().original\<close>. Each of them
  is computed by the library from the file and may raise instead.
\<close>

datatype obj = Obj nat

datatype image = Image nat

record page =
  extract_text :: "exn + str option"
  images :: "exn + obj list"
  chars :: "exn + obj list"
  to_image :: "exn + image"

record pdf =
  pages :: "exn + page list"

text \<open>
  The environment of one run: \<open>pdfplumber.open(path)\<close>,
  \<open>pytesseract.image_to_string(image, lang=...)\<close>, the line that \<open>input()\<close> reads
  from standard input, and whether standard input and standard output are both a
  terminal.
\<close>

record world =
  pdfplumber_open :: "str \<Rightarrow> exn + pdf"
  image_to_string :: "image \<Rightarrow> str \<Rightarrow> exn + str"
  stdin_input :: "exn + str"
  on_terminal :: bool

text \<open>
  The effects of a run: what was written to standard output and to standard error, one
  entry per write, and the calls made to the OCR engine, with their arguments.
\<close>

record io =
  stdout :: "str list"
  stderr :: "str list"
  ocr_calls :: "(image \<times> str) list"

definition py_print :: "str \<Rightarrow> io \<Rightarrow> io" where
  "py_print s io = io\<lparr>stdout := stdout io @ [s @ nl]\<rparr>"

definition py_print_stderr :: "str \<Rightarrow> io \<Rightarrow> io" where
  "py_print_stderr s io = io\<lparr>stderr := stderr io @ [s @ nl]\<rparr>"

section \<open>Python's truth values, loops and enumerate\<close>

fun truthy :: "str option \<Rightarrow> bool" where
  "truthy None = False"
| "truthy (Some s) = (s \<noteq> [])"

text \<open>\<open>page_text or ''\<close>\<close>

fun or_empty :: "str option \<Rightarrow> str" where
  "or_empty None = []"
| "or_empty (Some s) = (if s \<noteq> [] then s else [])"

fun enumerate :: "nat \<Rightarrow> 'a list \<Rightarrow> (nat \<times> 'a) list" where
  "enumerate n [] = []"
| "enumerate n (x # xs) = (n, x) # enumerate (Suc n) xs"

text \<open>
  A \<open>for\<close> loop whose body may raise or \<open>break\<close>: the body returns the exception or how
  it ended, with the state it left.
\<close>

datatype ctl = Break | Continue

fun for_loop :: "('a \<Rightarrow> 's \<Rightarrow> (exn + ctl) \<times> 's) \<Rightarrow> 'a list \<Rightarrow> 's \<Rightarrow> (exn + unit) \<times> 's" where
  "for_loop body [] s = (Inr (), s)"
| "for_loop body (x # xs) s =
     (case body x s of
        (Inl e, s') \<Rightarrow> (Inl e, s')
      | (Inr Break, s') \<Rightarrow> (Inr (), s')
      | (Inr Continue, s') \<Rightarrow> for_loop body xs s')"

section \<open>extract_pdf_info\<close>

text \<open>The local variables \<open>text\<close> and \<open>has_images\<close> of \<open>extract_pdf_info\<close>.\<close>

record locals =
  text_acc :: "str list"
  has_images_acc :: bool

text \<open>The dictionary that \<open>extract_pdf_info\<close> returns, with its keys \<open>text\<close>, \<open>num_pages\<close>, \<open>has_images\<close>.\<close>

record pdf_info =
  pdf_text :: "str list"
  num_pages :: nat
  has_images :: bool

text \<open>
  Lines 33 to 37: \<open>if not page_text and page.images:\<close> sets \<open>has_images\<close>, renders the
  page and replaces \<open>page_text\<close> by the OCR output. \<open>and\<close> evaluates \<open>page.images\<close>
  only when \<open>page_text\<close> is falsy.
\<close>

definition ocr_fallback ::
    "world \<Rightarrow> page \<Rightarrow> str option \<Rightarrow> bool \<times> io \<Rightarrow> (exn + str option) \<times> (bool \<times> io)" where
  "ocr_fallback w p page_text s =
     (if truthy page_text then (Inr page_text, s)
      else
        (case images p of
           Inl e \<Rightarrow> (Inl e, s)
         | Inr imgs \<Rightarrow>
             (if imgs = [] then (Inr page_text, s)
              else
                (case to_image p of
                   Inl e \<Rightarrow> (Inl e, (True, snd s))
                 | Inr img \<Rightarrow>
                     (let io' = (snd s)\<lparr>ocr_calls := ocr_calls (snd s) @ [(img, lit ''jpn'')]\<rparr>
                      in (case image_to_string w img (lit ''jpn'') of
                            Inl e \<Rightarrow> (Inl e, (True, io'))
                          | Inr t \<Rightarrow> (Inr (Some t), (True, io'))))))))"

text \<open>Lines 39 and 40: the two debug prints of the page's text.\<close>

definition debug_text :: "nat \<Rightarrow> str option \<Rightarrow> io \<Rightarrow> io" where
  "debug_text page_num page_text io =
     py_print (lit ''Debug - First 100 chars of page '' @ str_of_nat page_num @ lit '' text: '' @
                 (if truthy page_text then take 100 (or_empty page_text) else lit ''No text''))
       (py_print (nl @ lit ''Debug - Page '' @ str_of_nat page_num @ lit '' text length: '' @
                    str_of_nat (length (or_empty page_text))) io)"

text \<open>Lines 44 and 45: the debug prints of \<open>len(page.chars)\<close> and \<open>len(page.images)\<close>.\<close>

definition debug_counts :: "nat \<Rightarrow> page \<Rightarrow> io \<Rightarrow> (exn + unit) \<times> io" where
  "debug_counts page_num p io =
     (case chars p of
        Inl e \<Rightarrow> (Inl e, io)
      | Inr cs \<Rightarrow>
          (let io1 = py_print (lit ''Page '' @ str_of_nat page_num @ lit '' char count: '' @
                                 str_of_nat (length cs)) io
           in (case images p of
                 Inl e \<Rightarrow> (Inl e, io1)
               | Inr imgs \<Rightarrow>
                   (Inr (), py_print (lit ''Page '' @ str_of_nat page_num @ lit '' image count: '' @
                                        str_of_nat (length imgs)) io1))))"

text \<open>The body of the loop over \<open>enumerate(pdf.pages, 1)\<close>, lines 29 to 46; it ends with \<open>break\<close>.\<close>

definition process_page ::
    "world \<Rightarrow> nat \<times> page \<Rightarrow> locals \<times> io \<Rightarrow> (exn + ctl) \<times> (locals \<times> io)" where
  "process_page w np s =
     (case np of (page_num, p) \<Rightarrow>
     (case s of (l, io) \<Rightarrow>
     (case extract_text p of
        Inl e \<Rightarrow> (Inl e, (l, io))
      | Inr page_text0 \<Rightarrow>
          (case ocr_fallback w p page_text0 (has_images_acc l, io) of
             (Inl e, (h, io1)) \<Rightarrow> (Inl e, (l\<lparr>has_images_acc := h\<rparr>, io1))
           | (Inr page_text, (h, io1)) \<Rightarrow>
               (let io2 = debug_text page_num page_text io1;
                    l' = l\<lparr>text_acc := text_acc l @ [or_empty page_text], has_images_acc := h\<rparr>
                in (case debug_counts page_num p io2 of
                      (Inl e, io3) \<Rightarrow> (Inl e, (l', io3))
                    | (Inr u, io3) \<Rightarrow> (Inr Break, (l', io3))))))))"

text \<open>
  The \<open>try\<close> block of \<open>extract_pdf_info\<close>, lines 22 to 52. The \<open>with\<close> statement closes
  the document on every way out of the block; the closing has no part in the result and
  is left out.
\<close>

definition extract_try :: "world \<Rightarrow> str \<Rightarrow> io \<Rightarrow> (exn + pdf_info) \<times> io" where
  "extract_try w pdf_path io =
     (case pdfplumber_open w pdf_path of
        Inl e \<Rightarrow> (Inl e, io)
      | Inr doc \<Rightarrow>
          (case pages doc of
             Inl e \<Rightarrow> (Inl e, io)
           | Inr ps \<Rightarrow>
               (case for_loop (process_page w) (enumerate 1 ps)
                       (\<lparr>text_acc = [], has_images_acc = False\<rparr>, io) of
                  (Inl e, (l, io')) \<Rightarrow> (Inl e, io')
                | (Inr u, (l, io')) \<Rightarrow>
                    (Inr \<lparr>pdf_text = text_acc l, num_pages = length ps,
                          has_images = has_images_acc l\<rparr>, io'))))"

text \<open>
  \<open>extract_pdf_info\<close>: the \<open>try\<close> block, and the handler of line 54 that raises a new
  \<open>Exception\<close> from the message of the one it caught.
\<close>

definition wrap_exn :: "exn \<Rightarrow> exn" where
  "wrap_exn e = Exn ''Exception'' (lit ''Error extracting PDF info: '' @ exn_str e) (Some e)"

definition extract_pdf_info :: "world \<Rightarrow> str \<Rightarrow> io \<Rightarrow> (exn + pdf_info) \<times> io" where
  "extract_pdf_info w pdf_path io =
     (case extract_try w pdf_path io of
        (Inl e, io') \<Rightarrow> (Inl (wrap_exn e), io')
      | (Inr info, io') \<Rightarrow> (Inr info, io'))"

section \<open>print_pdf_info\<close>

text \<open>
  \<open>str.strip()\<close> without argument removes the leading and the trailing characters that
  Python takes for whitespace: the ASCII ones (tab to carriage return, the separators
  0x1C to 0x1F, the space) and the Unicode ones.
\<close>

definition is_space :: "nat \<Rightarrow> bool" where
  "is_space c \<longleftrightarrow>
     (9 \<le> c \<and> c \<le> 13) \<or> (28 \<le> c \<and> c \<le> 32) \<or> c = 133 \<or> c = 160 \<or> c = 5760 \<or>
     (8192 \<le> c \<and> c \<le> 8202) \<or> c = 8232 \<or> c = 8233 \<or> c = 8239 \<or> c = 8287 \<or> c = 12288"

definition strip :: "str \<Rightarrow> str" where
  "strip s = rev (dropWhile is_space (rev (dropWhile is_space s)))"

text \<open>\<open>range(start, stop, step)\<close> for a positive step (the program's step is 1000).\<close>

function py_range :: "nat \<Rightarrow> nat \<Rightarrow> nat \<Rightarrow> nat list" where
  "py_range i stop step =
     (if i < stop \<and> 0 < step then i # py_range (i + step) stop step else [])"
  by pat_completeness auto
termination
  by (relation "measure (\<lambda>(i, stop, step). stop - i)") auto

declare py_range.simps [simp del]

text \<open>\<open>s[i:j]\<close> for \<open>0 \<le> i\<close> and \<open>0 \<le> j\<close>: the characters at the indices from \<open>i\<close> up to \<open>j - 1\<close> that exist.\<close>

definition slice :: "'a list \<Rightarrow> nat \<Rightarrow> nat \<Rightarrow> 'a list" where
  "slice s i j = drop i (take j s)"

text \<open>\<open>s * n\<close> for a string \<open>s\<close>.\<close>

definition str_mul :: "str \<Rightarrow> nat \<Rightarrow> str" where
  "str_mul s n = concat (replicate n s)"

text \<open>Line 69: \<open>[page_text[i:i+1000] for i in range(0, len(page_text), 1000)]\<close>\<close>

definition chunks :: "str \<Rightarrow> str list" where
  "chunks page_text = map (\<lambda>i. slice page_text i (i + 1000)) (py_range 0 (length page_text) 1000)"

text \<open>Lines 70 to 72: the loop over the chunks.\<close>

definition print_chunk :: "str \<Rightarrow> io \<Rightarrow> io" where
  "print_chunk chunk io = py_print (str_mul (lit ''-'') 80) (py_print chunk io)"

text \<open>Lines 66 to 73: the body of the loop over \<open>enumerate(pdf_info['text'], 1)\<close>.\<close>

definition print_page :: "nat \<times> str \<Rightarrow> io \<Rightarrow> io" where
  "print_page np io =
     (case np of (page_num, page_text) \<Rightarrow>
        if strip page_text \<noteq> [] then
          py_print (str_mul (lit ''='') 80)
            (fold print_chunk (chunks page_text)
               (py_print (nl @ lit ''Page '' @ str_of_nat page_num @ lit '':'') io))
        else io)"

definition print_pdf_info :: "pdf_info \<Rightarrow> io \<Rightarrow> io" where
  "print_pdf_info info io =
     (let io1 = py_print (lit ''Number of pages: '' @ str_of_nat (num_pages info)) io;
          io2 = (if has_images info
                 then py_print (nl @ lit ''Note: This PDF contains images and OCR was used to extract text'') io1
                 else io1);
          io3 = py_print (nl @ lit ''Text content:'') io2
      in fold print_page (enumerate 1 (pdf_text info)) io3)"

section \<open>main\<close>

text \<open>
  \<open>input(prompt)\<close> writes the prompt, without a newline, and reads a line. The program
  does not import \<open>readline\<close>: when standard input and standard output are both a
  terminal, the interpreter writes the prompt to standard error; otherwise it writes the
  prompt to standard output.
\<close>

definition py_input :: "world \<Rightarrow> str \<Rightarrow> io \<Rightarrow> (exn + str) \<times> io" where
  "py_input w prompt io =
     (stdin_input w,
      if on_terminal w then io\<lparr>stderr := stderr io @ [prompt]\<rparr>
      else io\<lparr>stdout := stdout io @ [prompt]\<rparr>)"

text \<open>
  The \<open>try\<close> block of \<open>main\<close>, lines 88 to 94. \<open>pdf_file\<close> is the optional positional
  argument that argparse returns: \<open>None\<close> when the command line has none. A command
  line that argparse rejects ends the process before the \<open>try\<close> block and is not a
  run of the model.
\<close>

definition main_try :: "world \<Rightarrow> str option \<Rightarrow> io \<Rightarrow> (exn + unit) \<times> io" where
  "main_try w pdf_file io =
     (case (case pdf_file of
              None \<Rightarrow> py_input w (lit ''Enter PDF file path: '') io
            | Some f \<Rightarrow> (Inr f, io)) of
        (Inl e, io1) \<Rightarrow> (Inl e, io1)
      | (Inr path, io1) \<Rightarrow>
          (case extract_pdf_info w path io1 of
             (Inl e, io2) \<Rightarrow> (Inl e, io2)
           | (Inr info, io2) \<Rightarrow> (Inr (), print_pdf_info info io2)))"

text \<open>
  \<open>main\<close>: the exit status of the process and its effects. The handler of line 96 prints
  to standard error and calls \<open>sys.exit(1)\<close>; a run that leaves \<open>main\<close> normally exits with 0.
\<close>

definition main :: "world \<Rightarrow> str option \<Rightarrow> io \<Rightarrow> nat \<times> io" where
  "main w pdf_file io =
     (case main_try w pdf_file io of
        (Inl e, io') \<Rightarrow> (1, py_print_stderr (lit ''Error: '' @ exn_str e) io')
      | (Inr u, io') \<Rightarrow> (0, io'))"

section \<open>Sample inputs\<close>

text \<open>
  A run that starts with nothing written, a page whose library calls all succeed, and an
  environment with the single file \<open>doc.pdf\<close>, whose OCR engine always answers \<open>ocr\<close>.
\<close>

definition empty_io :: io where
  "empty_io = \<lparr>stdout = [], stderr = [], ocr_calls = []\<rparr>"

definition demo_page :: "str option \<Rightarrow> obj list \<Rightarrow> page" where
  "demo_page t imgs = \<lparr>extract_text = Inr t, images = Inr imgs, chars = Inr [], to_image = Inr (Image 1)\<rparr>"

definition demo_world :: "exn + page list \<Rightarrow> exn + str \<Rightarrow> world" where
  "demo_world ps ocr =
     \<lparr>pdfplumber_open = (\<lambda>f. if f = lit ''doc.pdf'' then Inr \<lparr>pages = ps\<rparr>
                              else Inl (Exn ''FileNotFoundError'' (lit ''No such file'') None)),
      image_to_string = (\<lambda>img lang. ocr),
      stdin_input = Inr (lit ''doc.pdf''),
      on_terminal = False\<rparr>"

definition demo_exn :: exn where
  "demo_exn = Exn ''ValueError'' (lit ''corrupt'') None"

section \<open>Auxiliary facts\<close>

lemma or_empty_Some: "or_empty (Some s) = s"
  by simp

lemma not_truthy_iff: "\<not> truthy pt \<longleftrightarrow> pt = None \<or> pt = Some []"
  by (cases pt) auto

lemma stdout_py_print: "stdout (py_print s io) = stdout io @ [s @ nl]"
  and stderr_py_print: "stderr (py_print s io) = stderr io"
  and ocr_calls_py_print: "ocr_calls (py_print s io) = ocr_calls io"
  by (simp_all add: py_print_def)

lemma ocr_calls_debug_text: "ocr_calls (debug_text n pt io) = ocr_calls io"
  by (simp add: debug_text_def ocr_calls_py_print)

lemma ocr_calls_debug_counts: "ocr_calls (snd (debug_counts n p io)) = ocr_calls io"
  by (simp add: debug_counts_def Let_def ocr_calls_py_print split: sum.splits)

lemma process_page_breaks: "fst (process_page w np s) = Inr c \<Longrightarrow> c = Break"
  by (auto simp: process_page_def Let_def split: prod.splits sum.splits)

lemma for_loop_process_page:
  "for_loop (process_page w) (x # xs) s =
     (case process_page w x s of (Inl e, s') \<Rightarrow> (Inl e, s') | (Inr c, s') \<Rightarrow> (Inr (), s'))"
proof -
  obtain r s' where ps: "process_page w x s = (r, s')"
    by (cases "process_page w x s") auto
  show ?thesis
  proof (cases r)
    case (Inl e)
    with ps show ?thesis by simp
  next
    case (Inr c)
    with ps have "c = Break" using process_page_breaks [of w x s c] by simp
    with ps Inr show ?thesis by simp
  qed
qed

lemma extract_try_first_page:
  assumes "pdfplumber_open w path = Inr doc" and "pages doc = Inr (p # ps)"
  shows "extract_try w path io =
           (case process_page w (1, p) (\<lparr>text_acc = [], has_images_acc = False\<rparr>, io) of
              (Inl e, (l, io')) \<Rightarrow> (Inl e, io')
            | (Inr c, (l, io')) \<Rightarrow>
                (Inr \<lparr>pdf_text = text_acc l, num_pages = Suc (length ps),
                      has_images = has_images_acc l\<rparr>, io'))"
  using assms
  by (simp add: extract_try_def for_loop_process_page del: for_loop.simps split: prod.splits sum.splits)


lemmas demo_defs = empty_io_def demo_page_def demo_world_def
lemmas extract_defs = extract_pdf_info_def extract_try_def process_page_def ocr_fallback_def
  debug_counts_def debug_text_def py_print_def wrap_exn_def

lemma or_empty_falsy: "\<not> truthy pt \<Longrightarrow> or_empty pt = []"
  by (cases pt) auto

lemma ocr_fallback_truthy:
  "truthy pt \<Longrightarrow> ocr_fallback w p pt s = (Inr pt, s)"
  by (simp add: ocr_fallback_def)

lemma ocr_fallback_no_images:
  "\<not> truthy pt \<Longrightarrow> images p = Inr [] \<Longrightarrow> ocr_fallback w p pt s = (Inr pt, s)"
  by (simp add: ocr_fallback_def)

lemma ocr_fallback_ocr:
  "\<not> truthy pt \<Longrightarrow> images p = Inr imgs \<Longrightarrow> imgs \<noteq> [] \<Longrightarrow> to_image p = Inr img \<Longrightarrow>
     ocr_fallback w p pt (h, io) =
       (case image_to_string w img (lit ''jpn'') of
          Inl e \<Rightarrow> (Inl e, (True, io\<lparr>ocr_calls := ocr_calls io @ [(img, lit ''jpn'')]\<rparr>))
        | Inr t \<Rightarrow> (Inr (Some t), (True, io\<lparr>ocr_calls := ocr_calls io @ [(img, lit ''jpn'')]\<rparr>)))"
  by (simp add: ocr_fallback_def Let_def)

lemma ocr_fallback_Inr:
  assumes "ocr_fallback w p pt (h, io) = (Inr pt', (h', io'))"
  shows "(truthy pt \<and> pt' = pt \<and> h' = h \<and> io' = io)
       \<or> (\<not> truthy pt \<and> images p = Inr [] \<and> pt' = pt \<and> h' = h \<and> io' = io)
       \<or> (\<not> truthy pt \<and> (\<exists>imgs img t. images p = Inr imgs \<and> imgs \<noteq> [] \<and> to_image p = Inr img \<and>
             image_to_string w img (lit ''jpn'') = Inr t \<and> pt' = Some t \<and> h' = True \<and>
             io' = io\<lparr>ocr_calls := ocr_calls io @ [(img, lit ''jpn'')]\<rparr>))"
proof (cases "truthy pt")
  case True
  with assms show ?thesis by (simp add: ocr_fallback_truthy)
next
  case False
  show ?thesis
  proof (cases "images p")
    case (Inl e)
    with False assms show ?thesis by (simp add: ocr_fallback_def)
  next
    case (Inr imgs)
    show ?thesis
    proof (cases "imgs = []")
      case True
      with False Inr assms show ?thesis by (simp add: ocr_fallback_no_images)
    next
      case ne: False
      show ?thesis
      proof (cases "to_image p")
        case (Inl e)
        with False Inr ne assms show ?thesis by (simp add: ocr_fallback_def)
      next
        case img: (Inr img)
        with False Inr ne assms show ?thesis
          by (cases "image_to_string w img (lit ''jpn'')") (auto simp: ocr_fallback_ocr)
      qed
    qed
  qed
qed

lemma debug_counts_Inr:
  assumes "debug_counts n p io = (Inr u, io')"
  shows "\<exists>cs imgs. chars p = Inr cs \<and> images p = Inr imgs \<and> ocr_calls io' = ocr_calls io"
  using assms
  by (cases "chars p"; cases "images p") (auto simp: debug_counts_def Let_def py_print_def)

lemma process_page_Inr:
  assumes "process_page w (n, p) (l, io) = (Inr c, (l', io'))"
  shows "\<exists>pt pt' h io1. extract_text p = Inr pt \<and>
           ocr_fallback w p pt (has_images_acc l, io) = (Inr pt', (h, io1)) \<and>
           l' = l\<lparr>text_acc := text_acc l @ [or_empty pt'], has_images_acc := h\<rparr> \<and>
           debug_counts n p (debug_text n pt' io1) = (Inr (), io')"
proof (cases "extract_text p")
  case (Inl e)
  with assms show ?thesis by (simp add: process_page_def)
next
  case (Inr pt)
  obtain r h io1 where f: "ocr_fallback w p pt (has_images_acc l, io) = (r, (h, io1))"
    by (cases "ocr_fallback w p pt (has_images_acc l, io)") auto
  show ?thesis
  proof (cases r)
    case (Inl e)
    with assms Inr f show ?thesis by (simp add: process_page_def)
  next
    case r: (Inr pt')
    obtain r2 io3 where d: "debug_counts n p (debug_text n pt' io1) = (r2, io3)"
      by (cases "debug_counts n p (debug_text n pt' io1)") auto
    from assms Inr f r d show ?thesis
      by (cases r2) (simp_all add: process_page_def Let_def del: or_empty.simps)
  qed
qed


lemma process_page_text:
  assumes "process_page w (n, p) (l, io) = (Inr c, (l', io'))"
  shows "\<exists>pt. extract_text p = Inr pt \<and>
           (if truthy pt then text_acc l' = text_acc l @ [or_empty pt]
            else if images p = Inr [] then text_acc l' = text_acc l @ [[]]
            else \<exists>img t. to_image p = Inr img \<and> image_to_string w img (lit ''jpn'') = Inr t \<and>
                   text_acc l' = text_acc l @ [t])"
proof -
  from process_page_Inr [OF assms] obtain pt pt' h io1 where
    pt: "extract_text p = Inr pt"
    and f: "ocr_fallback w p pt (has_images_acc l, io) = (Inr pt', (h, io1))"
    and l': "l' = l\<lparr>text_acc := text_acc l @ [or_empty pt'], has_images_acc := h\<rparr>"
    by blast
  from ocr_fallback_Inr [OF f] pt l' show ?thesis
    by (auto simp: or_empty_falsy or_empty_Some simp del: or_empty.simps)
qed

lemma process_page_returns:
  assumes "process_page w (n, p) (l, io) = (Inr c, s')"
  shows "\<exists>pt cs imgs. extract_text p = Inr pt \<and> chars p = Inr cs \<and> images p = Inr imgs \<and>
           (\<not> truthy pt \<and> imgs \<noteq> [] \<longrightarrow>
              (\<exists>img t. to_image p = Inr img \<and> image_to_string w img (lit ''jpn'') = Inr t))"
proof -
  obtain l' io' where s': "s' = (l', io')"
    by (cases s')
  from process_page_Inr [OF assms [unfolded s']] obtain pt pt' h io1 where
    pt: "extract_text p = Inr pt"
    and f: "ocr_fallback w p pt (has_images_acc l, io) = (Inr pt', (h, io1))"
    and d: "debug_counts n p (debug_text n pt' io1) = (Inr (), io')"
    by blast
  from debug_counts_Inr [OF d] obtain cs imgs where "chars p = Inr cs" "images p = Inr imgs"
    by blast
  with ocr_fallback_Inr [OF f] pt show ?thesis
    by auto
qed

section \<open>The extractor\<close>

text \<open>
  C2: the loop over the pages ends after its first iteration. For a document that opens
  and has at least one page, \<open>extract_pdf_info\<close> is the processing of page 1 alone, whatever
  the later pages are; when it returns, the list \<open>text\<close> has length exactly 1 and holds the text
  of the first page (its embedded text, the empty string, or its OCR output), while
  \<open>num_pages\<close> is the number of pages of the whole document.
\<close>

theorem extract_pdf_info_first_page_only:
  assumes "pdfplumber_open w path = Inr doc" and "pages doc = Inr (p # ps)"
  shows "extract_pdf_info w path io =
           (case process_page w (1, p) (\<lparr>text_acc = [], has_images_acc = False\<rparr>, io) of
              (Inl e, (l, io')) \<Rightarrow> (Inl (wrap_exn e), io')
            | (Inr c, (l, io')) \<Rightarrow>
                (Inr \<lparr>pdf_text = text_acc l, num_pages = Suc (length ps),
                      has_images = has_images_acc l\<rparr>, io'))
         \<and> (\<forall>info. fst (extract_pdf_info w path io) = Inr info \<longrightarrow>
               length (pdf_text info) = 1 \<and> num_pages info = length (p # ps) \<and>
               (\<exists>pt. extract_text p = Inr pt \<and>
                  (if truthy pt then pdf_text info = [or_empty pt]
                   else if images p = Inr [] then pdf_text info = [[]]
                   else \<exists>img t. to_image p = Inr img \<and>
                          image_to_string w img (lit ''jpn'') = Inr t \<and> pdf_text info = [t])))"
proof -
  let ?r = "process_page w (1, p) (\<lparr>text_acc = [], has_images_acc = False\<rparr>, io)"
  have eq: "extract_pdf_info w path io =
           (case ?r of
              (Inl e, (l, io')) \<Rightarrow> (Inl (wrap_exn e), io')
            | (Inr c, (l, io')) \<Rightarrow>
                (Inr \<lparr>pdf_text = text_acc l, num_pages = Suc (length ps),
                      has_images = has_images_acc l\<rparr>, io'))"
    by (simp add: extract_pdf_info_def extract_try_first_page [OF assms] split: prod.splits sum.splits)
  have rest: "length (pdf_text info) = 1 \<and> num_pages info = length (p # ps) \<and>
               (\<exists>pt. extract_text p = Inr pt \<and>
                  (if truthy pt then pdf_text info = [or_empty pt]
                   else if images p = Inr [] then pdf_text info = [[]]
                   else \<exists>img t. to_image p = Inr img \<and>
                          image_to_string w img (lit ''jpn'') = Inr t \<and> pdf_text info = [t]))"
    if ok: "fst (extract_pdf_info w path io) = Inr info" for info
  proof -
    obtain r l' io' where r: "?r = (r, (l', io'))"
      by (cases ?r) auto
    with ok eq obtain c where c: "r = Inr c"
      and info: "info = \<lparr>pdf_text = text_acc l', num_pages = Suc (length ps), has_images = has_images_acc l'\<rparr>"
      by (cases r) auto
    from process_page_text [OF r [unfolded c]]
    have "\<exists>pt. extract_text p = Inr pt \<and>
           (if truthy pt then text_acc l' = [or_empty pt]
            else if images p = Inr [] then text_acc l' = [[]]
            else \<exists>img t. to_image p = Inr img \<and> image_to_string w img (lit ''jpn'') = Inr t \<and>
                   text_acc l' = [t])"
      by (auto simp del: or_empty.simps split: if_splits)
    then obtain pt where pt: "extract_text p = Inr pt"
      and body: "if truthy pt then text_acc l' = [or_empty pt]
            else if images p = Inr [] then text_acc l' = [[]]
            else \<exists>img t. to_image p = Inr img \<and> image_to_string w img (lit ''jpn'') = Inr t \<and>
                   text_acc l' = [t]"
      by blast
    from body have len: "length (text_acc l') = 1"
      by (auto split: if_splits)
    from pt body len info show ?thesis
      by (auto split: if_splits)
  qed
  from eq rest show ?thesis by blast
qed

theorem extract_pdf_info_first_page_only_witness:
  "extract_pdf_info (demo_world (Inr [demo_page (Some (lit ''a'')) [], demo_page (Some (lit ''b'')) []]) (Inr []))
       (lit ''doc.pdf'') empty_io
     = (Inr \<lparr>pdf_text = [lit ''a''], num_pages = 2, has_images = False\<rparr>,
        snd (snd (process_page (demo_world (Inr [demo_page (Some (lit ''a'')) [], demo_page (Some (lit ''b'')) []]) (Inr []))
          (1, demo_page (Some (lit ''a'')) []) (\<lparr>text_acc = [], has_images_acc = False\<rparr>, empty_io))))"
  using extract_pdf_info_first_page_only
    [of "demo_world (Inr [demo_page (Some (lit ''a'')) [], demo_page (Some (lit ''b'')) []]) (Inr [])"
        "lit ''doc.pdf''" "\<lparr>pages = Inr [demo_page (Some (lit ''a'')) [], demo_page (Some (lit ''b'')) []]\<rparr>"
        "demo_page (Some (lit ''a'')) []" "[demo_page (Some (lit ''b'')) []]" empty_io]
  by (simp add: demo_defs process_page_def ocr_fallback_def debug_counts_def debug_text_def py_print_def lit_def)

lemma process_page_raise_text:
  "extract_text p = Inl c \<Longrightarrow> process_page w (n, p) (l, io) = (Inl c, (l, io))"
  by (simp add: process_page_def)

lemma process_page_raise_images:
  "extract_text p = Inr pt \<Longrightarrow> \<not> truthy pt \<Longrightarrow> images p = Inl c \<Longrightarrow>
     process_page w (n, p) (l, io) = (Inl c, (l, io))"
  by (simp add: process_page_def ocr_fallback_def)

lemma process_page_raise_to_image:
  "extract_text p = Inr pt \<Longrightarrow> \<not> truthy pt \<Longrightarrow> images p = Inr imgs \<Longrightarrow> imgs \<noteq> [] \<Longrightarrow>
     to_image p = Inl c \<Longrightarrow>
     process_page w (n, p) (l, io) = (Inl c, (l\<lparr>has_images_acc := True\<rparr>, io))"
  by (simp add: process_page_def ocr_fallback_def)

lemma process_page_raise_ocr:
  "extract_text p = Inr pt \<Longrightarrow> \<not> truthy pt \<Longrightarrow> images p = Inr imgs \<Longrightarrow> imgs \<noteq> [] \<Longrightarrow>
     to_image p = Inr img \<Longrightarrow> image_to_string w img (lit ''jpn'') = Inl c \<Longrightarrow>
     process_page w (n, p) (l, io) =
       (Inl c, (l\<lparr>has_images_acc := True\<rparr>, io\<lparr>ocr_calls := ocr_calls io @ [(img, lit ''jpn'')]\<rparr>))"
  by (simp add: process_page_def ocr_fallback_def)

lemma process_page_raise_chars:
  "extract_text p = Inr pt \<Longrightarrow> truthy pt \<Longrightarrow> chars p = Inl c \<Longrightarrow>
     process_page w (n, p) (l, io) =
       (Inl c, (l\<lparr>text_acc := text_acc l @ [or_empty pt]\<rparr>, debug_text n pt io))"
  by (simp add: process_page_def ocr_fallback_def debug_counts_def del: or_empty.simps)

lemma extract_pdf_info_first_page:
  assumes "pdfplumber_open w path = Inr doc" and "pages doc = Inr (p # ps)"
  shows "extract_pdf_info w path io =
           (case process_page w (1, p) (\<lparr>text_acc = [], has_images_acc = False\<rparr>, io) of
              (Inl e, (l, io')) \<Rightarrow> (Inl (wrap_exn e), io')
            | (Inr c, (l, io')) \<Rightarrow>
                (Inr \<lparr>pdf_text = text_acc l, num_pages = Suc (length ps),
                      has_images = has_images_acc l\<rparr>, io'))"
  by (simp add: extract_pdf_info_def extract_try_first_page [OF assms] split: prod.splits sum.splits)

lemma extract_pdf_info_no_pages:
  assumes "pdfplumber_open w path = Inr doc" and "pages doc = Inr []"
  shows "extract_pdf_info w path io = (Inr \<lparr>pdf_text = [], num_pages = 0, has_images = False\<rparr>, io)"
  using assms by (simp add: extract_pdf_info_def extract_try_def)

lemma extract_pdf_info_Inl:
  "fst (extract_pdf_info w path io) = Inl e \<longleftrightarrow> (\<exists>c. fst (extract_try w path io) = Inl c \<and> e = wrap_exn c)"
  by (auto simp: extract_pdf_info_def split: prod.splits sum.splits)

text \<open>
  C1 (the code departs from it): the claim asks for one entry per page. At a document of
  two pages with the embedded texts \<open>a\<close> and \<open>b\<close>, the code returns a list \<open>text\<close> with
  the single entry \<open>a\<close>, and \<open>num_pages = 2\<close>: the \<open>break\<close> of line 46 leaves the loop
  before the second page, although the docstring promises the text of each page.
\<close>

theorem extract_pdf_info_two_text_pages:
  "fst (extract_pdf_info
          (demo_world (Inr [demo_page (Some (lit ''a'')) [], demo_page (Some (lit ''b'')) []]) (Inr []))
          (lit ''doc.pdf'') empty_io)
     = Inr \<lparr>pdf_text = [lit ''a''], num_pages = 2, has_images = False\<rparr>"
  by (simp add: demo_defs extract_defs)

text \<open>
  The errors of the library calls. An error raised by any library call of the run is
  caught and raised again as one exception that carries the cause: when
  \<open>pdfplumber.open\<close> raises, when \<open>pdf.pages\<close> raises, and, for the page that is
  processed, when \<open>extract_text\<close>, \<open>page.images\<close>, \<open>to_image\<close>, the OCR engine or
  \<open>page.chars\<close> raise (the last one after the page's text was already appended to the
  list). The new exception has the cause as its context and the cause's string in its
  message. The outcome is an exception only when the \<open>try\<close> block raised one, and it is a
  result only when every library call that was made returned normally.
\<close>

lemma extract_pdf_info_wraps_errors:
  "(\<forall>c. pdfplumber_open w path = Inl c \<longrightarrow> fst (extract_pdf_info w path io) = Inl (wrap_exn c))
   \<and> (\<forall>doc c. pdfplumber_open w path = Inr doc \<and> pages doc = Inl c \<longrightarrow>
         fst (extract_pdf_info w path io) = Inl (wrap_exn c))
   \<and> (\<forall>doc p ps. pdfplumber_open w path = Inr doc \<and> pages doc = Inr (p # ps) \<longrightarrow>
         (\<forall>c. extract_text p = Inl c \<longrightarrow> fst (extract_pdf_info w path io) = Inl (wrap_exn c))
       \<and> (\<forall>pt c. extract_text p = Inr pt \<and> \<not> truthy pt \<and> images p = Inl c \<longrightarrow>
             fst (extract_pdf_info w path io) = Inl (wrap_exn c))
       \<and> (\<forall>pt imgs c. extract_text p = Inr pt \<and> \<not> truthy pt \<and> images p = Inr imgs \<and> imgs \<noteq> [] \<and>
             to_image p = Inl c \<longrightarrow>
             fst (extract_pdf_info w path io) = Inl (wrap_exn c))
       \<and> (\<forall>pt imgs img c. extract_text p = Inr pt \<and> \<not> truthy pt \<and> images p = Inr imgs \<and> imgs \<noteq> [] \<and>
             to_image p = Inr img \<and> image_to_string w img (lit ''jpn'') = Inl c \<longrightarrow>
             fst (extract_pdf_info w path io) = Inl (wrap_exn c))
       \<and> (\<forall>pt c. extract_text p = Inr pt \<and> truthy pt \<and> chars p = Inl c \<longrightarrow>
             fst (extract_pdf_info w path io) = Inl (wrap_exn c)))
   \<and> (\<forall>c. exn_context (wrap_exn c) = Some c \<and>
           exn_str (wrap_exn c) = lit ''Error extracting PDF info: '' @ exn_str c)
   \<and> (\<forall>e. fst (extract_pdf_info w path io) = Inl e \<longrightarrow>
         (\<exists>c. e = wrap_exn c \<and> fst (extract_try w path io) = Inl c))
   \<and> (\<forall>info. fst (extract_pdf_info w path io) = Inr info \<longrightarrow>
         (\<exists>doc ps. pdfplumber_open w path = Inr doc \<and> pages doc = Inr ps \<and>
            (\<forall>p ps'. ps = p # ps' \<longrightarrow>
               (\<exists>pt cs imgs. extract_text p = Inr pt \<and> chars p = Inr cs \<and> images p = Inr imgs \<and>
                  (\<not> truthy pt \<and> imgs \<noteq> [] \<longrightarrow>
                     (\<exists>img t. to_image p = Inr img \<and>
                        image_to_string w img (lit ''jpn'') = Inr t))))))"
proof -
  let ?E = "fst (extract_pdf_info w path io)"
  have opening_raise: "?E = Inl (wrap_exn c)" if "pdfplumber_open w path = Inl c" for c
    using that by (simp add: extract_pdf_info_def extract_try_def)
  have parsing_raise: "?E = Inl (wrap_exn c)"
    if "pdfplumber_open w path = Inr doc \<and> pages doc = Inl c" for doc c
    using that by (simp add: extract_pdf_info_def extract_try_def)
  have page: "?E = Inl (wrap_exn c)"
    if "pdfplumber_open w path = Inr doc" "pages doc = Inr (p # ps)"
      and "fst (process_page w (1, p) (\<lparr>text_acc = [], has_images_acc = False\<rparr>, io)) = Inl c"
    for doc p ps c
    using that(3) by (auto simp: extract_pdf_info_first_page [OF that(1,2)] split: prod.splits sum.splits)
  have pages_raise:
    "(\<forall>c. extract_text p = Inl c \<longrightarrow> ?E = Inl (wrap_exn c))
       \<and> (\<forall>pt c. extract_text p = Inr pt \<and> \<not> truthy pt \<and> images p = Inl c \<longrightarrow> ?E = Inl (wrap_exn c))
       \<and> (\<forall>pt imgs c. extract_text p = Inr pt \<and> \<not> truthy pt \<and> images p = Inr imgs \<and> imgs \<noteq> [] \<and>
             to_image p = Inl c \<longrightarrow> ?E = Inl (wrap_exn c))
       \<and> (\<forall>pt imgs img c. extract_text p = Inr pt \<and> \<not> truthy pt \<and> images p = Inr imgs \<and> imgs \<noteq> [] \<and>
             to_image p = Inr img \<and> image_to_string w img (lit ''jpn'') = Inl c \<longrightarrow>
             ?E = Inl (wrap_exn c))
       \<and> (\<forall>pt c. extract_text p = Inr pt \<and> truthy pt \<and> chars p = Inl c \<longrightarrow> ?E = Inl (wrap_exn c))"
    if d: "pdfplumber_open w path = Inr doc \<and> pages doc = Inr (p # ps)" for doc p ps
  proof -
    note pg = page [OF conjunct1 [OF d] conjunct2 [OF d]]
    have 1: "\<forall>c. extract_text p = Inl c \<longrightarrow> ?E = Inl (wrap_exn c)"
      by (auto intro!: pg simp: process_page_raise_text)
    have 2: "\<forall>pt c. extract_text p = Inr pt \<and> \<not> truthy pt \<and> images p = Inl c \<longrightarrow> ?E = Inl (wrap_exn c)"
      by (auto intro!: pg simp: process_page_raise_images)
    have 3: "\<forall>pt imgs c. extract_text p = Inr pt \<and> \<not> truthy pt \<and> images p = Inr imgs \<and> imgs \<noteq> [] \<and>
             to_image p = Inl c \<longrightarrow> ?E = Inl (wrap_exn c)"
      by (auto intro!: pg simp: process_page_raise_to_image)
    have 4: "\<forall>pt imgs img c. extract_text p = Inr pt \<and> \<not> truthy pt \<and> images p = Inr imgs \<and> imgs \<noteq> [] \<and>
             to_image p = Inr img \<and> image_to_string w img (lit ''jpn'') = Inl c \<longrightarrow>
             ?E = Inl (wrap_exn c)"
      by (auto intro!: pg simp: process_page_raise_ocr)
    have 5: "\<forall>pt c. extract_text p = Inr pt \<and> truthy pt \<and> chars p = Inl c \<longrightarrow> ?E = Inl (wrap_exn c)"
      by (auto intro!: pg simp: process_page_raise_chars simp del: or_empty.simps)
    from 1 2 3 4 5 show ?thesis by blast
  qed
  have cause: "\<forall>c. exn_context (wrap_exn c) = Some c \<and>
           exn_str (wrap_exn c) = lit ''Error extracting PDF info: '' @ exn_str c"
    by (simp add: wrap_exn_def)
  have wrapped: "\<exists>c. e = wrap_exn c \<and> fst (extract_try w path io) = Inl c" if "?E = Inl e" for e
    using that by (auto simp: extract_pdf_info_Inl)
  have full: "\<exists>doc ps. pdfplumber_open w path = Inr doc \<and> pages doc = Inr ps \<and>
            (\<forall>p ps'. ps = p # ps' \<longrightarrow>
               (\<exists>pt cs imgs. extract_text p = Inr pt \<and> chars p = Inr cs \<and> images p = Inr imgs \<and>
                  (\<not> truthy pt \<and> imgs \<noteq> [] \<longrightarrow>
                     (\<exists>img t. to_image p = Inr img \<and>
                        image_to_string w img (lit ''jpn'') = Inr t))))"
    if ok: "?E = Inr info" for info
  proof -
    from ok obtain doc where doc: "pdfplumber_open w path = Inr doc"
      by (cases "pdfplumber_open w path") (auto simp: opening_raise)
    from ok doc obtain ps where ps: "pages doc = Inr ps"
      using parsing_raise [of doc] by (cases "pages doc") auto
    have "\<exists>pt cs imgs. extract_text p = Inr pt \<and> chars p = Inr cs \<and> images p = Inr imgs \<and>
                  (\<not> truthy pt \<and> imgs \<noteq> [] \<longrightarrow>
                     (\<exists>img t. to_image p = Inr img \<and> image_to_string w img (lit ''jpn'') = Inr t))"
      if "ps = p # ps'" for p ps'
    proof -
      obtain r s' where r: "process_page w (1, p) (\<lparr>text_acc = [], has_images_acc = False\<rparr>, io) = (r, s')"
        by (cases "process_page w (1, p) (\<lparr>text_acc = [], has_images_acc = False\<rparr>, io)") auto
      with ok doc ps that obtain c where "r = Inr c"
        by (cases r) (auto simp: extract_pdf_info_first_page [of w path doc p ps'] split: prod.splits)
      with r show ?thesis
        using process_page_returns [of w 1 p _ io c s'] by blast
    qed
    with doc ps show ?thesis by blast
  qed
  from opening_raise parsing_raise pages_raise cause wrapped full show ?thesis
    by blast
qed


lemma extract_pdf_info_wraps_errors_examples:
  "fst (extract_pdf_info (demo_world (Inr []) (Inr [])) (lit ''missing.pdf'') empty_io)
     = Inl (wrap_exn (Exn ''FileNotFoundError'' (lit ''No such file'') None))
   \<and> fst (extract_pdf_info (demo_world (Inl demo_exn) (Inr [])) (lit ''doc.pdf'') empty_io)
     = Inl (wrap_exn demo_exn)
   \<and> fst (extract_pdf_info (demo_world (Inr [(demo_page None [])\<lparr>extract_text := Inl demo_exn\<rparr>]) (Inr []))
            (lit ''doc.pdf'') empty_io)
     = Inl (wrap_exn demo_exn)
   \<and> fst (extract_pdf_info (demo_world (Inr [(demo_page None [])\<lparr>images := Inl demo_exn\<rparr>]) (Inr []))
            (lit ''doc.pdf'') empty_io)
     = Inl (wrap_exn demo_exn)
   \<and> fst (extract_pdf_info (demo_world (Inr [(demo_page None [Obj 0])\<lparr>to_image := Inl demo_exn\<rparr>]) (Inr []))
            (lit ''doc.pdf'') empty_io)
     = Inl (wrap_exn demo_exn)
   \<and> fst (extract_pdf_info (demo_world (Inr [demo_page None [Obj 0]]) (Inl demo_exn))
            (lit ''doc.pdf'') empty_io)
     = Inl (wrap_exn demo_exn)
   \<and> fst (extract_pdf_info (demo_world (Inr [(demo_page (Some (lit ''a'')) [])\<lparr>chars := Inl demo_exn\<rparr>]) (Inr []))
            (lit ''doc.pdf'') empty_io)
     = Inl (wrap_exn demo_exn)
   \<and> exn_context (wrap_exn demo_exn) = Some demo_exn"
proof -
  have not_doc: "lit ''missing.pdf'' \<noteq> lit ''doc.pdf''"
    by (simp add: lit_def)
  have 1: "fst (extract_pdf_info (demo_world (Inr []) (Inr [])) (lit ''missing.pdf'') empty_io)
     = Inl (wrap_exn (Exn ''FileNotFoundError'' (lit ''No such file'') None))"
    using extract_pdf_info_wraps_errors [of "demo_world (Inr []) (Inr [])" "lit ''missing.pdf''" empty_io]
    by (simp add: demo_world_def not_doc)
  have 2: "fst (extract_pdf_info (demo_world (Inl demo_exn) (Inr [])) (lit ''doc.pdf'') empty_io)
     = Inl (wrap_exn demo_exn)"
    using extract_pdf_info_wraps_errors [of "demo_world (Inl demo_exn) (Inr [])" "lit ''doc.pdf''" empty_io]
    by (simp add: demo_world_def)
  have 3: "fst (extract_pdf_info (demo_world (Inr [(demo_page None [])\<lparr>extract_text := Inl demo_exn\<rparr>]) (Inr []))
            (lit ''doc.pdf'') empty_io) = Inl (wrap_exn demo_exn)"
    using extract_pdf_info_wraps_errors
      [of "demo_world (Inr [(demo_page None [])\<lparr>extract_text := Inl demo_exn\<rparr>]) (Inr [])"
          "lit ''doc.pdf''" empty_io]
    by (simp add: demo_world_def demo_page_def)
  have 4: "fst (extract_pdf_info (demo_world (Inr [(demo_page None [])\<lparr>images := Inl demo_exn\<rparr>]) (Inr []))
            (lit ''doc.pdf'') empty_io) = Inl (wrap_exn demo_exn)"
    using extract_pdf_info_wraps_errors
      [of "demo_world (Inr [(demo_page None [])\<lparr>images := Inl demo_exn\<rparr>]) (Inr [])"
          "lit ''doc.pdf''" empty_io]
    by (simp add: demo_world_def demo_page_def)
  have 5: "fst (extract_pdf_info (demo_world (Inr [(demo_page None [Obj 0])\<lparr>to_image := Inl demo_exn\<rparr>]) (Inr []))
            (lit ''doc.pdf'') empty_io) = Inl (wrap_exn demo_exn)"
    using extract_pdf_info_wraps_errors
      [of "demo_world (Inr [(demo_page None [Obj 0])\<lparr>to_image := Inl demo_exn\<rparr>]) (Inr [])"
          "lit ''doc.pdf''" empty_io]
    by (simp add: demo_world_def demo_page_def)
  have 6: "fst (extract_pdf_info (demo_world (Inr [demo_page None [Obj 0]]) (Inl demo_exn))
            (lit ''doc.pdf'') empty_io) = Inl (wrap_exn demo_exn)"
    using extract_pdf_info_wraps_errors
      [of "demo_world (Inr [demo_page None [Obj 0]]) (Inl demo_exn)" "lit ''doc.pdf''" empty_io]
    by (simp add: demo_world_def demo_page_def)
  have 7: "fst (extract_pdf_info (demo_world (Inr [(demo_page (Some (lit ''a'')) [])\<lparr>chars := Inl demo_exn\<rparr>]) (Inr []))
            (lit ''doc.pdf'') empty_io) = Inl (wrap_exn demo_exn)"
    using extract_pdf_info_wraps_errors
      [of "demo_world (Inr [(demo_page (Some (lit ''a'')) [])\<lparr>chars := Inl demo_exn\<rparr>]) (Inr [])"
          "lit ''doc.pdf''" empty_io]
    by (simp add: demo_world_def demo_page_def lit_def)
  have 8: "exn_context (wrap_exn demo_exn) = Some demo_exn"
    using extract_pdf_info_wraps_errors [of "demo_world (Inr []) (Inr [])" "lit ''doc.pdf''" empty_io]
    by blast
  from 1 2 3 4 5 6 7 8 show ?thesis by blast
qed

text \<open>
  C3 (the code departs from it): the claim asks that \<open>extract_pdf_info\<close> either returns
  the full result, an entry for every page, or raises. The errors that are raised are
  caught and raised again, as shown above, but the \<open>break\<close> of line 46 leaves the loop
  after the first page: at a document of two pages, whose first page has the embedded
  text \<open>a\<close> and whose second page cannot be read (its \<open>extract_text\<close> raises), the code
  raises nothing and returns a partial list, the single entry \<open>a\<close>, with \<open>num_pages = 2\<close>.
\<close>

theorem extract_pdf_info_partial_result:
  "extract_text ((demo_page None [])\<lparr>extract_text := Inl demo_exn\<rparr>) = Inl demo_exn
   \<and> fst (extract_pdf_info
          (demo_world (Inr [demo_page (Some (lit ''a'')) [],
                            (demo_page None [])\<lparr>extract_text := Inl demo_exn\<rparr>]) (Inr []))
          (lit ''doc.pdf'') empty_io)
     = Inr \<lparr>pdf_text = [lit ''a''], num_pages = 2, has_images = False\<rparr>"
  by (simp add: demo_defs extract_defs)



section \<open>The OCR fallback\<close>

lemma debug_counts_ok:
  assumes "chars p = Inr cs" and "images p = Inr imgs"
  shows "\<exists>io'. debug_counts n p io = (Inr (), io') \<and> ocr_calls io' = ocr_calls io"
  using assms by (simp add: debug_counts_def Let_def py_print_def)

lemma process_page_ok:
  assumes "extract_text p = Inr pt"
    and "ocr_fallback w p pt (has_images_acc l, io) = (Inr pt', (h, io1))"
    and "chars p = Inr cs" and "images p = Inr imgs"
  shows "\<exists>io'. process_page w (n, p) (l, io) =
           (Inr Break, (l\<lparr>text_acc := text_acc l @ [or_empty pt'], has_images_acc := h\<rparr>, io')) \<and>
           ocr_calls io' = ocr_calls io1"
proof -
  from debug_counts_ok [OF assms(3,4)] obtain io' where
    "debug_counts n p (debug_text n pt' io1) = (Inr (), io')"
    and "ocr_calls io' = ocr_calls (debug_text n pt' io1)"
    by blast
  with assms(1,2) show ?thesis
    by (simp add: process_page_def Let_def ocr_calls_debug_text del: or_empty.simps)
qed

lemma process_page_ocr_calls:
  assumes "extract_text p = Inr pt"
    and "ocr_fallback w p pt (has_images_acc l, io) = (r, (h, io1))"
  shows "ocr_calls (snd (snd (process_page w (n, p) (l, io)))) = ocr_calls io1"
proof (cases r)
  case (Inl e)
  with assms show ?thesis by (simp add: process_page_def)
next
  case (Inr pt')
  obtain r2 io3 where d: "debug_counts n p (debug_text n pt' io1) = (r2, io3)"
    by (cases "debug_counts n p (debug_text n pt' io1)") auto
  have "ocr_calls io3 = ocr_calls io1"
    using ocr_calls_debug_counts [of n p "debug_text n pt' io1"] d
    by (simp add: ocr_calls_debug_text)
  with assms Inr d show ?thesis
    by (cases r2) (simp_all add: process_page_def Let_def del: or_empty.simps)
qed

lemma process_page_has_images:
  assumes "extract_text p = Inr pt"
    and "ocr_fallback w p pt (has_images_acc l, io) = (r, (h, io1))"
  shows "has_images_acc (fst (snd (process_page w (n, p) (l, io)))) = h"
proof (cases r)
  case (Inl e)
  with assms show ?thesis by (simp add: process_page_def)
next
  case (Inr pt')
  obtain r2 io3 where d: "debug_counts n p (debug_text n pt' io1) = (r2, io3)"
    by (cases "debug_counts n p (debug_text n pt' io1)") auto
  with assms Inr show ?thesis
    by (cases r2) (simp_all add: process_page_def Let_def del: or_empty.simps)
qed

lemma ocr_fallback_raise_images:
  "\<not> truthy pt \<Longrightarrow> images p = Inl c \<Longrightarrow> ocr_fallback w p pt s = (Inl c, s)"
  by (simp add: ocr_fallback_def)

lemma ocr_fallback_raise_to_image:
  "\<not> truthy pt \<Longrightarrow> images p = Inr imgs \<Longrightarrow> imgs \<noteq> [] \<Longrightarrow> to_image p = Inl c \<Longrightarrow>
     ocr_fallback w p pt (h, io) = (Inl c, (True, io))"
  by (simp add: ocr_fallback_def)

lemma ocr_fallback_ocr_state:
  assumes "\<not> truthy pt" and "images p = Inr imgs" and "imgs \<noteq> []" and "to_image p = Inr img"
  shows "\<exists>r. ocr_fallback w p pt (h, io) =
           (r, (True, io\<lparr>ocr_calls := ocr_calls io @ [(img, lit ''jpn'')]\<rparr>))"
  by (cases "image_to_string w img (lit ''jpn'')") (simp_all add: ocr_fallback_ocr [OF assms])

text \<open>
  C4, as stated, fails: the claim takes a text for empty when it has length zero after
  trimming. The test of line 33 is \<open>not page_text\<close>, which does not trim. A page whose
  embedded text is a single space and that has an image is not sent to the OCR engine:
  its entry is the space and \<open>has_images\<close> stays false.
\<close>

theorem ocr_skipped_for_whitespace_text:
  "strip (lit '' '') = []
   \<and> images (demo_page (Some (lit '' '')) [Obj 0]) = Inr [Obj 0]
   \<and> fst (extract_pdf_info (demo_world (Inr [demo_page (Some (lit '' '')) [Obj 0]]) (Inr (lit ''ocr'')))
            (lit ''doc.pdf'') empty_io)
       = Inr \<lparr>pdf_text = [lit '' ''], num_pages = 1, has_images = False\<rparr>
   \<and> ocr_calls (snd (extract_pdf_info (demo_world (Inr [demo_page (Some (lit '' '')) [Obj 0]]) (Inr (lit ''ocr'')))
            (lit ''doc.pdf'') empty_io)) = []"
  by (simp add: demo_defs extract_defs strip_def is_space_def lit_def)

text \<open>
  C4, amended: for the page that is processed, whose \<open>extract_text\<close> returned \<open>page_text\<close>,
  the OCR engine is called exactly when \<open>page_text\<close> is \<open>None\<close> or the string of length
  zero (untrimmed) and \<open>page.images\<close> is not empty and the page could be rendered; the call
  gets the rendered image and the fixed language \<open>jpn\<close>, and \<open>has_images\<close> is then true,
  also in the result returned for the document. A page with any non-empty embedded text,
  were it only whitespace, keeps that text as its entry and makes no OCR call; so does a
  page with no text and no image, and a page whose images or rendering raise.
\<close>

theorem ocr_fallback_condition:
  assumes "extract_text p = Inr pt"
  shows "(\<not> truthy pt \<longleftrightarrow> pt = None \<or> pt = Some [])
   \<and> (truthy pt \<longrightarrow>
         ocr_calls (snd (snd (process_page w (n, p) (l, io)))) = ocr_calls io \<and>
         has_images_acc (fst (snd (process_page w (n, p) (l, io)))) = has_images_acc l \<and>
         (\<forall>c. fst (process_page w (n, p) (l, io)) = Inr c \<longrightarrow>
            text_acc (fst (snd (process_page w (n, p) (l, io)))) = text_acc l @ [or_empty pt]))
   \<and> (\<not> truthy pt \<and> images p = Inr [] \<longrightarrow>
         ocr_calls (snd (snd (process_page w (n, p) (l, io)))) = ocr_calls io \<and>
         has_images_acc (fst (snd (process_page w (n, p) (l, io)))) = has_images_acc l)
   \<and> (\<forall>imgs img. \<not> truthy pt \<and> images p = Inr imgs \<and> imgs \<noteq> [] \<and> to_image p = Inr img \<longrightarrow>
         ocr_calls (snd (snd (process_page w (n, p) (l, io)))) = ocr_calls io @ [(img, lit ''jpn'')] \<and>
         has_images_acc (fst (snd (process_page w (n, p) (l, io)))) = True)
   \<and> (\<forall>c. \<not> truthy pt \<and> (images p = Inl c \<or> (images p \<noteq> Inr [] \<and> to_image p = Inl c)) \<longrightarrow>
         ocr_calls (snd (snd (process_page w (n, p) (l, io)))) = ocr_calls io)
   \<and> (\<forall>doc ps info. pdfplumber_open w path = Inr doc \<and> pages doc = Inr (p # ps) \<and>
         fst (extract_pdf_info w path io) = Inr info \<longrightarrow>
         (has_images info \<longleftrightarrow> \<not> truthy pt \<and> images p \<noteq> Inr []))"
proof -
  let ?r = "process_page w (n, p) (l, io)"
  have a: "\<not> truthy pt \<longleftrightarrow> pt = None \<or> pt = Some []"
    by (rule not_truthy_iff)
  have b: "ocr_calls (snd (snd ?r)) = ocr_calls io \<and>
         has_images_acc (fst (snd ?r)) = has_images_acc l \<and>
         (\<forall>c. fst ?r = Inr c \<longrightarrow> text_acc (fst (snd ?r)) = text_acc l @ [or_empty pt])"
    if t: "truthy pt"
  proof -
    have f: "ocr_fallback w p pt (has_images_acc l, io) = (Inr pt, (has_images_acc l, io))"
      using t by (simp add: ocr_fallback_truthy)
    have "text_acc (fst (snd ?r)) = text_acc l @ [or_empty pt]" if fc: "fst ?r = Inr c" for c
    proof -
      obtain l' io' where "?r = (Inr c, (l', io'))"
        using fc by (cases ?r) auto
      with process_page_text [of w n p l io c l' io'] assms t show ?thesis
        by (simp del: or_empty.simps)
    qed
    with process_page_ocr_calls [OF assms f] process_page_has_images [OF assms f]
    show ?thesis by blast
  qed
  have c: "ocr_calls (snd (snd ?r)) = ocr_calls io \<and>
         has_images_acc (fst (snd ?r)) = has_images_acc l"
    if "\<not> truthy pt \<and> images p = Inr []"
  proof -
    have f: "ocr_fallback w p pt (has_images_acc l, io) = (Inr pt, (has_images_acc l, io))"
      using that by (simp add: ocr_fallback_no_images)
    from process_page_ocr_calls [OF assms f] process_page_has_images [OF assms f]
    show ?thesis by blast
  qed
  have d: "ocr_calls (snd (snd ?r)) = ocr_calls io @ [(img, lit ''jpn'')] \<and>
         has_images_acc (fst (snd ?r)) = True"
    if h: "\<not> truthy pt \<and> images p = Inr imgs \<and> imgs \<noteq> [] \<and> to_image p = Inr img" for imgs img
  proof -
    from h ocr_fallback_ocr_state [of pt p imgs img w "has_images_acc l" io]
    obtain r where f: "ocr_fallback w p pt (has_images_acc l, io) =
           (r, (True, io\<lparr>ocr_calls := ocr_calls io @ [(img, lit ''jpn'')]\<rparr>))"
      by blast
    from process_page_ocr_calls [OF assms f] process_page_has_images [OF assms f]
    show ?thesis by simp
  qed
  have e: "ocr_calls (snd (snd ?r)) = ocr_calls io"
    if h: "\<not> truthy pt \<and> (images p = Inl c \<or> (images p \<noteq> Inr [] \<and> to_image p = Inl c))" for c
  proof (cases "images p")
    case (Inl c')
    with h have f: "ocr_fallback w p pt (has_images_acc l, io) = (Inl c', (has_images_acc l, io))"
      by (simp add: ocr_fallback_raise_images)
    from process_page_ocr_calls [OF assms f] show ?thesis .
  next
    case (Inr imgs)
    with h have "imgs \<noteq> []" and ti: "to_image p = Inl c" by auto
    with h Inr have f: "ocr_fallback w p pt (has_images_acc l, io) = (Inl c, (True, io))"
      by (simp add: ocr_fallback_raise_to_image)
    from process_page_ocr_calls [OF assms f] show ?thesis .
  qed
  have g: "has_images info \<longleftrightarrow> \<not> truthy pt \<and> images p \<noteq> Inr []"
    if h: "pdfplumber_open w path = Inr doc \<and> pages doc = Inr (p # ps) \<and>
         fst (extract_pdf_info w path io) = Inr info" for doc ps info
  proof -
    let ?l0 = "\<lparr>text_acc = [], has_images_acc = False\<rparr>"
    let ?q = "process_page w (1, p) (?l0, io)"
    obtain r l' io' where q: "?q = (r, (l', io'))"
      by (cases ?q) auto
    with h extract_pdf_info_first_page [of w path doc p ps io]
    obtain c where r: "r = Inr c" and info: "has_images info = has_images_acc l'"
      by (cases r) auto
    from process_page_Inr [OF q [unfolded r]] obtain pt0 pt' hh io1 where
      pt0: "extract_text p = Inr pt0"
      and f: "ocr_fallback w p pt0 (has_images_acc ?l0, io) = (Inr pt', (hh, io1))"
      and l': "l' = ?l0\<lparr>text_acc := text_acc ?l0 @ [or_empty pt'], has_images_acc := hh\<rparr>"
      by blast
    from pt0 assms have "pt0 = pt" by simp
    with ocr_fallback_Inr [OF f] have "hh \<longleftrightarrow> \<not> truthy pt \<and> images p \<noteq> Inr []"
      by auto
    with info l' show ?thesis by simp
  qed
  from a b c d e g show ?thesis by blast
qed


theorem ocr_fallback_condition_witness:
  "ocr_calls (snd (snd (process_page (demo_world (Inr []) (Inr (lit ''ocr''))) (1, demo_page None [Obj 0])
       (\<lparr>text_acc = [], has_images_acc = False\<rparr>, empty_io)))) = [(Image 1, lit ''jpn'')]
   \<and> has_images_acc (fst (snd (process_page (demo_world (Inr []) (Inr (lit ''ocr''))) (1, demo_page None [Obj 0])
       (\<lparr>text_acc = [], has_images_acc = False\<rparr>, empty_io)))) = True
   \<and> ocr_calls (snd (snd (process_page (demo_world (Inr []) (Inr (lit ''ocr''))) (1, demo_page (Some (lit '' '')) [Obj 0])
       (\<lparr>text_acc = [], has_images_acc = False\<rparr>, empty_io)))) = []
   \<and> ocr_calls (snd (snd (process_page (demo_world (Inr []) (Inr (lit ''ocr''))) (1, demo_page (Some []) [])
       (\<lparr>text_acc = [], has_images_acc = False\<rparr>, empty_io)))) = []"
proof -
  have 1: "extract_text (demo_page None [Obj 0]) = Inr None"
    and 2: "extract_text (demo_page (Some (lit '' '')) [Obj 0]) = Inr (Some (lit '' ''))"
    and 3: "extract_text (demo_page (Some []) []) = Inr (Some [])"
    by (simp_all add: demo_page_def)
  have t: "truthy (Some (lit '' ''))"
    by (simp add: lit_def)
  from ocr_fallback_condition [OF 1, where w = "demo_world (Inr []) (Inr (lit ''ocr''))" and n = 1
      and l = "\<lparr>text_acc = [], has_images_acc = False\<rparr>" and io = empty_io]
  have a: "ocr_calls (snd (snd (process_page (demo_world (Inr []) (Inr (lit ''ocr''))) (1, demo_page None [Obj 0])
       (\<lparr>text_acc = [], has_images_acc = False\<rparr>, empty_io)))) = [(Image 1, lit ''jpn'')]
   \<and> has_images_acc (fst (snd (process_page (demo_world (Inr []) (Inr (lit ''ocr''))) (1, demo_page None [Obj 0])
       (\<lparr>text_acc = [], has_images_acc = False\<rparr>, empty_io)))) = True"
    by (simp add: demo_page_def empty_io_def)
  from ocr_fallback_condition [OF 2, where w = "demo_world (Inr []) (Inr (lit ''ocr''))" and n = 1
      and l = "\<lparr>text_acc = [], has_images_acc = False\<rparr>" and io = empty_io] t
  have b: "ocr_calls (snd (snd (process_page (demo_world (Inr []) (Inr (lit ''ocr''))) (1, demo_page (Some (lit '' '')) [Obj 0])
       (\<lparr>text_acc = [], has_images_acc = False\<rparr>, empty_io)))) = []"
    by (simp add: empty_io_def)
  from ocr_fallback_condition [OF 3, where w = "demo_world (Inr []) (Inr (lit ''ocr''))" and n = 1
      and l = "\<lparr>text_acc = [], has_images_acc = False\<rparr>" and io = empty_io]
  have c: "ocr_calls (snd (snd (process_page (demo_world (Inr []) (Inr (lit ''ocr''))) (1, demo_page (Some []) [])
       (\<lparr>text_acc = [], has_images_acc = False\<rparr>, empty_io)))) = []"
    by (simp add: demo_page_def empty_io_def)
  from a b c show ?thesis by blast
qed

text \<open>
  C5: for a page with no embedded text (\<open>None\<close> or the empty string) and no image, the
  loop body makes no OCR call, appends the empty string as the page's entry and leaves
  \<open>has_images\<close> as it was; when this page is the first one of the document, the result
  has the entry \<open>''\<close> and \<open>has_images = False\<close>.
\<close>

theorem page_without_text_or_images:
  assumes "extract_text p = Inr pt" and "\<not> truthy pt" and "images p = Inr []" and "chars p = Inr cs"
  shows "(\<exists>io'. process_page w (n, p) (l, io) = (Inr Break, (l\<lparr>text_acc := text_acc l @ [[]]\<rparr>, io')) \<and>
               ocr_calls io' = ocr_calls io)
   \<and> (\<forall>doc ps. pdfplumber_open w path = Inr doc \<and> pages doc = Inr (p # ps) \<longrightarrow>
         fst (extract_pdf_info w path io) =
           Inr \<lparr>pdf_text = [[]], num_pages = Suc (length ps), has_images = False\<rparr> \<and>
         ocr_calls (snd (extract_pdf_info w path io)) = ocr_calls io)"
proof -
  have f: "ocr_fallback w p pt (has_images_acc l, io) = (Inr pt, (has_images_acc l, io))" for l
    using assms(2,3) by (simp add: ocr_fallback_no_images)
  have step: "\<exists>io'. process_page w (n, p) (l, io) = (Inr Break, (l\<lparr>text_acc := text_acc l @ [[]]\<rparr>, io')) \<and>
               ocr_calls io' = ocr_calls io" for n l
    using process_page_ok [OF assms(1) f assms(4,3), of n] assms(2)
    by (simp add: or_empty_falsy del: or_empty.simps)
  have whole: "fst (extract_pdf_info w path io) =
           Inr \<lparr>pdf_text = [[]], num_pages = Suc (length ps), has_images = False\<rparr> \<and>
         ocr_calls (snd (extract_pdf_info w path io)) = ocr_calls io"
    if d: "pdfplumber_open w path = Inr doc \<and> pages doc = Inr (p # ps)" for doc ps
  proof -
    from step [of 1 "\<lparr>text_acc = [], has_images_acc = False\<rparr>"] obtain io' where
      "process_page w (1, p) (\<lparr>text_acc = [], has_images_acc = False\<rparr>, io) =
         (Inr Break, (\<lparr>text_acc = [[]], has_images_acc = False\<rparr>, io'))"
      and "ocr_calls io' = ocr_calls io"
      by auto
    with d show ?thesis
      by (simp add: extract_pdf_info_first_page [of w path doc p ps io])
  qed
  from step whole show ?thesis by blast
qed

theorem page_without_text_or_images_witness:
  "fst (extract_pdf_info (demo_world (Inr [demo_page None []]) (Inr (lit ''ocr''))) (lit ''doc.pdf'')
         empty_io) = Inr \<lparr>pdf_text = [[]], num_pages = 1, has_images = False\<rparr>
   \<and> ocr_calls (snd (extract_pdf_info (demo_world (Inr [demo_page None []]) (Inr (lit ''ocr''))) (lit ''doc.pdf'')
         empty_io)) = []"
  using page_without_text_or_images
    [where p = "demo_page None []" and pt = None and cs = "[]"
       and w = "demo_world (Inr [demo_page None []]) (Inr (lit ''ocr''))"
       and path = "lit ''doc.pdf''" and io = empty_io]
  by (simp add: demo_defs)

text \<open>
  C9: \<open>has_images\<close> is set before the OCR output is looked at. For a first page with
  images and no embedded text whose OCR output is the empty string, the result has
  \<open>has_images = True\<close> and the entry \<open>''\<close>; the flag is true whatever the OCR engine
  answers, also in the state left when it raises.
\<close>

theorem has_images_set_before_ocr_output:
  assumes "pdfplumber_open w path = Inr doc" and "pages doc = Inr (p # ps)"
    and "extract_text p = Inr pt" and "\<not> truthy pt"
    and "images p = Inr imgs" and "imgs \<noteq> []" and "to_image p = Inr img"
    and "chars p = Inr cs"
  shows "(image_to_string w img (lit ''jpn'') = Inr [] \<longrightarrow>
            fst (extract_pdf_info w path io) =
              Inr \<lparr>pdf_text = [[]], num_pages = Suc (length ps), has_images = True\<rparr>)
   \<and> (\<forall>t. image_to_string w img (lit ''jpn'') = Inr t \<longrightarrow>
            fst (extract_pdf_info w path io) =
              Inr \<lparr>pdf_text = [t], num_pages = Suc (length ps), has_images = True\<rparr>)
   \<and> has_images_acc (fst (snd (process_page w (1, p)
          (\<lparr>text_acc = [], has_images_acc = False\<rparr>, io)))) = True"
proof -
  let ?l0 = "\<lparr>text_acc = [], has_images_acc = False\<rparr>"
  have res: "fst (extract_pdf_info w path io) =
              Inr \<lparr>pdf_text = [t], num_pages = Suc (length ps), has_images = True\<rparr>"
    if t: "image_to_string w img (lit ''jpn'') = Inr t" for t
  proof -
    have f: "ocr_fallback w p pt (has_images_acc ?l0, io) =
        (Inr (Some t), (True, io\<lparr>ocr_calls := ocr_calls io @ [(img, lit ''jpn'')]\<rparr>))"
      using t by (simp add: ocr_fallback_ocr [OF assms(4-7)])
    from process_page_ok [OF assms(3) f assms(8,5), of 1] obtain io' where
      "process_page w (1, p) (?l0, io) = (Inr Break, (\<lparr>text_acc = [t], has_images_acc = True\<rparr>, io'))"
      by auto
    then show ?thesis
      by (simp add: extract_pdf_info_first_page [OF assms(1,2)])
  qed
  from ocr_fallback_ocr_state [OF assms(4-7), of w "has_images_acc ?l0" io] obtain r where
    f: "ocr_fallback w p pt (has_images_acc ?l0, io) =
          (r, (True, io\<lparr>ocr_calls := ocr_calls io @ [(img, lit ''jpn'')]\<rparr>))"
    by blast
  from res process_page_has_images [OF assms(3) f, of 1] show ?thesis
    by blast
qed

theorem has_images_set_before_ocr_output_witness:
  "fst (extract_pdf_info (demo_world (Inr [demo_page None [Obj 0]]) (Inr [])) (lit ''doc.pdf'') empty_io)
     = Inr \<lparr>pdf_text = [[]], num_pages = 1, has_images = True\<rparr>"
  using has_images_set_before_ocr_output
    [where w = "demo_world (Inr [demo_page None [Obj 0]]) (Inr [])" and path = "lit ''doc.pdf''"
       and doc = "\<lparr>pages = Inr [demo_page None [Obj 0]]\<rparr>" and p = "demo_page None [Obj 0]"
       and ps = "[]" and pt = None and imgs = "[Obj 0]" and img = "Image 1" and cs = "[]"
       and io = empty_io]
  by (simp add: demo_world_def demo_page_def)

section \<open>The presenter\<close>

lemma py_range_closed:
  "0 < s \<Longrightarrow> py_range i n s = map (\<lambda>k. i + k * s) [0..<(n + s - Suc i) div s]"
proof (induction i n s rule: py_range.induct)
  case (1 i n s)
  note pos = \<open>0 < s\<close>
  show ?case
  proof (cases "i < n")
    case True
    with 1 have ih: "py_range (i + s) n s = map (\<lambda>k. i + s + k * s) [0..<(n + s - Suc (i + s)) div s]"
      by blast
    from True have a: "n + s - Suc (i + s) = n - Suc i"
      by arith
    from True have b0: "n + s - Suc i = (n - Suc i) + s"
      by arith
    have "((n - Suc i) + s) div s = Suc ((n - Suc i) div s)"
      using pos div_add_self2 [of s "n - Suc i"] by simp
    then have b: "(n + s - Suc i) div s = Suc ((n - Suc i) div s)"
      by (simp only: b0)
    have c: "map (\<lambda>k. i + k * s) [0..<Suc m] = i # map (\<lambda>k. i + s + k * s) [0..<m]" for m
      by (simp only: map_upt_Suc) (simp add: add.assoc)
    have "py_range i n s = i # py_range (i + s) n s"
      using True pos by (subst py_range.simps) simp
    then show ?thesis
      by (simp only: ih a b c)
  next
    case False
    then have "n + s - Suc i < s"
      using pos by arith
    then have "(n + s - Suc i) div s = 0"
      by simp
    moreover have "py_range i n s = []"
      using False by (subst py_range.simps) simp
    ultimately show ?thesis
      by simp
  qed
qed

lemma chunks_closed:
  "chunks t = map (\<lambda>k. take 1000 (drop (k * 1000) t)) [0..<(length t + 999) div 1000]"
proof -
  have "slice t i (i + 1000) = take 1000 (drop i t)" for i
    by (simp add: slice_def drop_take)
  then show ?thesis
    by (simp add: chunks_def py_range_closed comp_def add.commute)
qed







lemma strip_empty_iff: "strip s = [] \<longleftrightarrow> (\<forall>c\<in>set s. is_space c)"
proof (cases "dropWhile is_space s")
  case Nil
  then have "\<forall>c\<in>set s. is_space c"
    by (simp add: dropWhile_eq_Nil_conv)
  moreover have "strip s = []"
    unfolding strip_def Nil by simp
  ultimately show ?thesis by simp
next
  case (Cons x xs)
  then have "\<not> is_space x"
    using hd_dropWhile [of is_space s] by simp
  moreover have "x \<in> set (rev (dropWhile is_space s))"
    using Cons by simp
  ultimately have "dropWhile is_space (rev (dropWhile is_space s)) \<noteq> []"
    unfolding dropWhile_eq_Nil_conv by blast
  then have "strip s \<noteq> []"
    by (simp add: strip_def)
  moreover from Cons have "\<not> (\<forall>c\<in>set s. is_space c)"
    using dropWhile_eq_Nil_conv [of is_space s] by simp
  ultimately show ?thesis by simp
qed


lemma fold_print_chunk:
  "fold print_chunk cs io =
     io\<lparr>stdout := stdout io @ concat (map (\<lambda>c. [c @ nl, str_mul (lit ''-'') 80 @ nl]) cs)\<rparr>"
  by (induction cs arbitrary: io) (simp_all add: print_chunk_def py_print_def)

lemma print_page_blank: "strip t = [] \<Longrightarrow> print_page (n, t) io = io"
  by (simp add: print_page_def)

lemma print_page_text:
  "strip t \<noteq> [] \<Longrightarrow> print_page (n, t) io =
     io\<lparr>stdout := stdout io @ [nl @ lit ''Page '' @ str_of_nat n @ lit '':'' @ nl] @
            concat (map (\<lambda>c. [c @ nl, str_mul (lit ''-'') 80 @ nl]) (chunks t)) @
            [str_mul (lit ''='') 80 @ nl]\<rparr>"
  by (simp add: print_page_def fold_print_chunk py_print_def)


lemma chunks_short:
  assumes "0 < length t" and "length t \<le> 1000"
  shows "chunks t = [t]"
proof -
  from assms have "length t + 999 = 1000 + (length t - 1)" and "length t - 1 < 1000"
    by arith+
  then have "(length t + 999) div 1000 = 1"
    by simp
  with assms show ?thesis
    by (simp add: chunks_closed)
qed

lemma fold_print_page:
  "fold print_page xs io =
     io\<lparr>stdout := stdout io @
        concat (map (\<lambda>(n, t). if \<forall>c\<in>set t. is_space c then []
                       else [nl @ lit ''Page '' @ str_of_nat n @ lit '':'' @ nl] @
                            concat (map (\<lambda>c. [c @ nl, str_mul (lit ''-'') 80 @ nl]) (chunks t)) @
                            [str_mul (lit ''='') 80 @ nl]) xs)\<rparr>"
proof (induction xs arbitrary: io)
  case Nil
  show ?case by simp
next
  case (Cons x xs)
  obtain n t where x: "x = (n, t)"
    by (cases x)
  show ?case
  proof (cases "\<forall>c\<in>set t. is_space c")
    case True
    then have "print_page (n, t) io = io"
      by (simp add: print_page_blank strip_empty_iff)
    with True x Cons show ?thesis by simp
  next
    case False
    then have "strip t \<noteq> []"
      by (simp add: strip_empty_iff)
    from print_page_text [OF this, of n io] False x Cons show ?thesis
      by simp
  qed
qed

lemma print_pdf_info_stdout:
  "print_pdf_info info io =
     io\<lparr>stdout := stdout io @
        [lit ''Number of pages: '' @ str_of_nat (num_pages info) @ nl] @
        (if has_images info
         then [nl @ lit ''Note: This PDF contains images and OCR was used to extract text'' @ nl]
         else []) @
        [nl @ lit ''Text content:'' @ nl] @
        concat (map (\<lambda>(n, t). if \<forall>c\<in>set t. is_space c then []
                       else [nl @ lit ''Page '' @ str_of_nat n @ lit '':'' @ nl] @
                            concat (map (\<lambda>c. [c @ nl, str_mul (lit ''-'') 80 @ nl]) (chunks t)) @
                            [str_mul (lit ''='') 80 @ nl])
                  (enumerate 1 (pdf_text info)))\<rparr>"
  by (simp add: print_pdf_info_def Let_def fold_print_page py_print_def)





text \<open>
  C6: a page whose text is empty or made of whitespace only (so that \<open>strip\<close> leaves
  nothing) writes nothing, not even its header. The report is the line with the number of
  pages, the note about OCR if \<open>has_images\<close>, the line \<open>Text content:\<close> and the blocks of
  the pages that are not blank, under their own page numbers; with three pages of which
  the second is blank, it has the headers of the pages 1 and 3 only.
\<close>

theorem print_pdf_info_skips_blank_pages:
  "((\<forall>c\<in>set page_text. is_space c) \<longrightarrow> print_page (n, page_text) io = io)
   \<and> (strip page_text = [] \<longleftrightarrow> (\<forall>c\<in>set page_text. is_space c))
   \<and> print_pdf_info info io =
       io\<lparr>stdout := stdout io @
          [lit ''Number of pages: '' @ str_of_nat (num_pages info) @ nl] @
          (if has_images info
           then [nl @ lit ''Note: This PDF contains images and OCR was used to extract text'' @ nl]
           else []) @
          [nl @ lit ''Text content:'' @ nl] @
          concat (map (\<lambda>(n, t). if \<forall>c\<in>set t. is_space c then []
                         else [nl @ lit ''Page '' @ str_of_nat n @ lit '':'' @ nl] @
                              concat (map (\<lambda>c. [c @ nl, str_mul (lit ''-'') 80 @ nl]) (chunks t)) @
                              [str_mul (lit ''='') 80 @ nl])
                    (enumerate 1 (pdf_text info)))\<rparr>
   \<and> ((\<forall>c\<in>set t2. is_space c) \<and> \<not> (\<forall>c\<in>set t1. is_space c) \<and> \<not> (\<forall>c\<in>set t3. is_space c) \<longrightarrow>
        print_pdf_info \<lparr>pdf_text = [t1, t2, t3], num_pages = k, has_images = h\<rparr> io =
          io\<lparr>stdout := stdout io @
             [lit ''Number of pages: '' @ str_of_nat k @ nl] @
             (if h
              then [nl @ lit ''Note: This PDF contains images and OCR was used to extract text'' @ nl]
              else []) @
             [nl @ lit ''Text content:'' @ nl] @
             [nl @ lit ''Page '' @ str_of_nat 1 @ lit '':'' @ nl] @
             concat (map (\<lambda>c. [c @ nl, str_mul (lit ''-'') 80 @ nl]) (chunks t1)) @
             [str_mul (lit ''='') 80 @ nl] @
             [nl @ lit ''Page '' @ str_of_nat 3 @ lit '':'' @ nl] @
             concat (map (\<lambda>c. [c @ nl, str_mul (lit ''-'') 80 @ nl]) (chunks t3)) @
             [str_mul (lit ''='') 80 @ nl]\<rparr>)"
proof -
  have blank: "print_page (n, page_text) io = io" if "\<forall>c\<in>set page_text. is_space c"
    using that by (simp add: print_page_blank strip_empty_iff)
  have three: "print_pdf_info \<lparr>pdf_text = [t1, t2, t3], num_pages = k, has_images = h\<rparr> io =
          io\<lparr>stdout := stdout io @
             [lit ''Number of pages: '' @ str_of_nat k @ nl] @
             (if h
              then [nl @ lit ''Note: This PDF contains images and OCR was used to extract text'' @ nl]
              else []) @
             [nl @ lit ''Text content:'' @ nl] @
             [nl @ lit ''Page '' @ str_of_nat 1 @ lit '':'' @ nl] @
             concat (map (\<lambda>c. [c @ nl, str_mul (lit ''-'') 80 @ nl]) (chunks t1)) @
             [str_mul (lit ''='') 80 @ nl] @
             [nl @ lit ''Page '' @ str_of_nat 3 @ lit '':'' @ nl] @
             concat (map (\<lambda>c. [c @ nl, str_mul (lit ''-'') 80 @ nl]) (chunks t3)) @
             [str_mul (lit ''='') 80 @ nl]\<rparr>"
    if "(\<forall>c\<in>set t2. is_space c) \<and> \<not> (\<forall>c\<in>set t1. is_space c) \<and> \<not> (\<forall>c\<in>set t3. is_space c)"
  proof -
    have e: "enumerate 1 [t1, t2, t3] = [(1, t1), (2, t2), (3, t3)]"
      by (simp add: eval_nat_numeral)
    from that show ?thesis
      by (simp only: print_pdf_info_stdout pdf_info.simps e) simp
  qed
  from blank three print_pdf_info_stdout [of info io] strip_empty_iff [of page_text]
  show ?thesis
    by blast
qed


theorem print_pdf_info_skips_blank_pages_witness:
  "print_page (2, lit '' '') empty_io = empty_io
   \<and> print_pdf_info \<lparr>pdf_text = [lit ''a'', lit '' '', lit ''c''], num_pages = 3, has_images = False\<rparr>
        empty_io =
       empty_io\<lparr>stdout :=
          [lit ''Number of pages: '' @ str_of_nat 3 @ nl,
           nl @ lit ''Text content:'' @ nl,
           nl @ lit ''Page '' @ str_of_nat 1 @ lit '':'' @ nl,
           lit ''a'' @ nl, str_mul (lit ''-'') 80 @ nl, str_mul (lit ''='') 80 @ nl,
           nl @ lit ''Page '' @ str_of_nat 3 @ lit '':'' @ nl,
           lit ''c'' @ nl, str_mul (lit ''-'') 80 @ nl, str_mul (lit ''='') 80 @ nl]\<rparr>"
proof -
  have b: "\<forall>c\<in>set (lit '' ''). is_space c"
    and a: "\<not> (\<forall>c\<in>set (lit ''a''). is_space c)"
    and c: "\<not> (\<forall>c\<in>set (lit ''c''). is_space c)"
    by (simp_all add: lit_def is_space_def)
  have ch: "chunks (lit ''a'') = [lit ''a'']" "chunks (lit ''c'') = [lit ''c'']"
    by (simp_all add: chunks_short lit_def)
  note T = print_pdf_info_skips_blank_pages
    [where page_text = "lit '' ''" and n = 2 and io = empty_io and ?t1.0 = "lit ''a''"
       and ?t2.0 = "lit '' ''" and ?t3.0 = "lit ''c''" and k = 3 and h = False]
  from T b have 1: "print_page (2, lit '' '') empty_io = empty_io"
    by blast
  from T a b c have "print_pdf_info \<lparr>pdf_text = [lit ''a'', lit '' '', lit ''c''], num_pages = 3, has_images = False\<rparr>
        empty_io =
          empty_io\<lparr>stdout := stdout empty_io @
             [lit ''Number of pages: '' @ str_of_nat 3 @ nl] @
             (if False
              then [nl @ lit ''Note: This PDF contains images and OCR was used to extract text'' @ nl]
              else []) @
             [nl @ lit ''Text content:'' @ nl] @
             [nl @ lit ''Page '' @ str_of_nat 1 @ lit '':'' @ nl] @
             concat (map (\<lambda>c. [c @ nl, str_mul (lit ''-'') 80 @ nl]) (chunks (lit ''a''))) @
             [str_mul (lit ''='') 80 @ nl] @
             [nl @ lit ''Page '' @ str_of_nat 3 @ lit '':'' @ nl] @
             concat (map (\<lambda>c. [c @ nl, str_mul (lit ''-'') 80 @ nl]) (chunks (lit ''c''))) @
             [str_mul (lit ''='') 80 @ nl]\<rparr>"
    by blast
  then have 2: "print_pdf_info \<lparr>pdf_text = [lit ''a'', lit '' '', lit ''c''], num_pages = 3, has_images = False\<rparr>
        empty_io =
       empty_io\<lparr>stdout :=
          [lit ''Number of pages: '' @ str_of_nat 3 @ nl,
           nl @ lit ''Text content:'' @ nl,
           nl @ lit ''Page '' @ str_of_nat 1 @ lit '':'' @ nl,
           lit ''a'' @ nl, str_mul (lit ''-'') 80 @ nl, str_mul (lit ''='') 80 @ nl,
           nl @ lit ''Page '' @ str_of_nat 3 @ lit '':'' @ nl,
           lit ''c'' @ nl, str_mul (lit ''-'') 80 @ nl, str_mul (lit ''='') 80 @ nl]\<rparr>"
    by (simp add: ch empty_io_def)
  from 1 2 show ?thesis by blast
qed

section \<open>The command line\<close>

lemma stderr_debug_text: "stderr (debug_text n pt io) = stderr io"
  by (simp add: debug_text_def py_print_def)

lemma stderr_debug_counts: "stderr (snd (debug_counts n p io)) = stderr io"
  by (simp add: debug_counts_def Let_def py_print_def split: sum.splits)

lemma stderr_ocr_fallback: "stderr (snd (snd (ocr_fallback w p pt (h, io)))) = stderr io"
  by (simp add: ocr_fallback_def Let_def split: sum.splits)

lemma stderr_process_page: "stderr (snd (snd (process_page w (n, p) (l, io)))) = stderr io"
proof (cases "extract_text p")
  case (Inl e)
  then show ?thesis by (simp add: process_page_def)
next
  case (Inr pt)
  obtain r h io1 where f: "ocr_fallback w p pt (has_images_acc l, io) = (r, (h, io1))"
    by (cases "ocr_fallback w p pt (has_images_acc l, io)") auto
  then have io1: "stderr io1 = stderr io"
    using stderr_ocr_fallback [of w p pt "has_images_acc l" io] by simp
  show ?thesis
  proof (cases r)
    case (Inl e)
    with Inr f io1 show ?thesis by (simp add: process_page_def)
  next
    case r: (Inr pt')
    obtain r2 io3 where d: "debug_counts n p (debug_text n pt' io1) = (r2, io3)"
      by (cases "debug_counts n p (debug_text n pt' io1)") auto
    have "stderr io3 = stderr io1"
      using stderr_debug_counts [of n p "debug_text n pt' io1"] d
      by (simp add: stderr_debug_text)
    with Inr f r d io1 show ?thesis
      by (cases r2) (simp_all add: process_page_def Let_def del: or_empty.simps)
  qed
qed

lemma stderr_extract_pdf_info: "stderr (snd (extract_pdf_info w path io)) = stderr io"
proof (cases "pdfplumber_open w path")
  case (Inl e)
  then show ?thesis by (simp add: extract_pdf_info_def extract_try_def)
next
  case (Inr doc)
  show ?thesis
  proof (cases "pages doc")
    case (Inl e)
    with Inr show ?thesis by (simp add: extract_pdf_info_def extract_try_def)
  next
    case ps: (Inr ps)
    show ?thesis
    proof (cases ps)
      case Nil
      with Inr ps show ?thesis by (simp add: extract_pdf_info_no_pages)
    next
      case (Cons p ps')
      let ?q = "process_page w (1, p) (\<lparr>text_acc = [], has_images_acc = False\<rparr>, io)"
      obtain r l' io' where q: "?q = (r, (l', io'))"
        by (cases ?q) auto
      with stderr_process_page [of w 1 p "\<lparr>text_acc = [], has_images_acc = False\<rparr>" io]
      have "stderr io' = stderr io" by simp
      with q show ?thesis
        by (cases r) (simp_all add: extract_pdf_info_first_page [OF Inr ps [unfolded Cons]])
    qed
  qed
qed

lemma main_with_path:
  "main w (Some path) io =
     (case extract_pdf_info w path io of
        (Inl e, io') \<Rightarrow> (1, py_print_stderr (lit ''Error: '' @ exn_str e) io')
      | (Inr info, io') \<Rightarrow> (0, print_pdf_info info io'))"
  by (simp add: main_def main_try_def split: prod.splits sum.splits)

lemma prefix_error: "prefix (lit ''Error:'') (lit ''Error: '' @ s)"
  by (simp add: lit_def)

text \<open>
  C8: when \<open>main\<close> is run with a path whose extraction fails, the process exits with
  status 1; it writes one message to standard error, \<open>Error: \<close> followed by the string of
  the exception, and nothing of its own to standard output: \<open>print_pdf_info\<close> does not run, so no report is written.
  For a file that cannot be opened, standard output is left as it was. When the extraction
  succeeds, the report is printed and the exit status is 0.
\<close>

theorem main_exit_status:
  "(\<forall>e. fst (extract_pdf_info w path io) = Inl e \<longrightarrow>
        fst (main w (Some path) io) = 1 \<and>
        stderr (snd (main w (Some path) io)) = stderr io @ [lit ''Error: '' @ exn_str e @ nl] \<and>
        prefix (lit ''Error:'') (lit ''Error: '' @ exn_str e @ nl) \<and>
        stdout (snd (main w (Some path) io)) = stdout (snd (extract_pdf_info w path io)))
   \<and> (\<forall>c. pdfplumber_open w path = Inl c \<longrightarrow>
        main w (Some path) io =
          (1, io\<lparr>stderr := stderr io @
                 [lit ''Error: '' @ lit ''Error extracting PDF info: '' @ exn_str c @ nl]\<rparr>))
   \<and> (\<forall>info. fst (extract_pdf_info w path io) = Inr info \<longrightarrow>
        main w (Some path) io = (0, print_pdf_info info (snd (extract_pdf_info w path io))))"
proof -
  obtain r io' where x: "extract_pdf_info w path io = (r, io')"
    by (cases "extract_pdf_info w path io") auto
  have se: "stderr io' = stderr io"
    using stderr_extract_pdf_info [of w path io] x by simp
  have fails: "fst (main w (Some path) io) = 1 \<and>
        stderr (snd (main w (Some path) io)) = stderr io @ [lit ''Error: '' @ exn_str e @ nl] \<and>
        prefix (lit ''Error:'') (lit ''Error: '' @ exn_str e @ nl) \<and>
        stdout (snd (main w (Some path) io)) = stdout (snd (extract_pdf_info w path io))"
    if "fst (extract_pdf_info w path io) = Inl e" for e
    using that x se by (simp add: main_with_path py_print_stderr_def prefix_error)
  have missing: "main w (Some path) io =
          (1, io\<lparr>stderr := stderr io @
                 [lit ''Error: '' @ lit ''Error extracting PDF info: '' @ exn_str c @ nl]\<rparr>)"
    if "pdfplumber_open w path = Inl c" for c
    using that
    by (simp add: main_with_path extract_pdf_info_def extract_try_def wrap_exn_def
        py_print_stderr_def)
  have succeeds: "main w (Some path) io = (0, print_pdf_info info (snd (extract_pdf_info w path io)))"
    if "fst (extract_pdf_info w path io) = Inr info" for info
    using that x by (simp add: main_with_path)
  from fails missing succeeds show ?thesis
    by blast
qed

theorem main_exit_status_witness:
  "main (demo_world (Inr []) (Inr [])) (Some (lit ''missing.pdf'')) empty_io =
     (1, empty_io\<lparr>stderr :=
           [lit ''Error: '' @ lit ''Error extracting PDF info: '' @ lit ''No such file'' @ nl]\<rparr>)
   \<and> fst (main (demo_world (Inr [demo_page (Some (lit ''a'')) []]) (Inr [])) (Some (lit ''doc.pdf''))
          empty_io) = 0"
proof -
  have not_doc: "lit ''missing.pdf'' \<noteq> lit ''doc.pdf''"
    by (simp add: lit_def)
  have 1: "main (demo_world (Inr []) (Inr [])) (Some (lit ''missing.pdf'')) empty_io =
     (1, empty_io\<lparr>stderr :=
           [lit ''Error: '' @ lit ''Error extracting PDF info: '' @ lit ''No such file'' @ nl]\<rparr>)"
    using main_exit_status [of "demo_world (Inr []) (Inr [])" "lit ''missing.pdf''" empty_io]
    by (simp add: demo_world_def not_doc empty_io_def)
  have ok: "fst (extract_pdf_info (demo_world (Inr [demo_page (Some (lit ''a'')) []]) (Inr []))
              (lit ''doc.pdf'') empty_io)
     = Inr \<lparr>pdf_text = [lit ''a''], num_pages = 1, has_images = False\<rparr>"
    by (simp add: demo_defs extract_defs)
  have 2: "fst (main (demo_world (Inr [demo_page (Some (lit ''a'')) []]) (Inr [])) (Some (lit ''doc.pdf''))
          empty_io) = 0"
    using main_exit_status [of "demo_world (Inr [demo_page (Some (lit ''a'')) []]) (Inr [])"
        "lit ''doc.pdf''" empty_io] ok
    by simp
  from 1 2 show ?thesis by blast
qed

end
